theory Spec2Isabelle
  imports Main "HOL-Library.AList"
begin

section \<open>project-bundler: configuration, helpers and the binary detector\<close>

text \<open>
  A shallow embedding of \<^verbatim>\<open>main.go\<close>. Go strings and byte slices are
  sequences of bytes; a HOL \<open>char\<close> is a byte, so both are \<open>string\<close>. A Go map
  literal is an association list with distinct keys (the order of the list is one
  enumeration of the map; Go's \<^verbatim>\<open>range\<close> may use any), and a map that the code
  only looks keys up in is read with \<open>map_of\<close>.
\<close>

subsection \<open>Configuration section\<close>

record ProjectConfig =
  IgnoreDirs :: "string list"
  IgnoreExts :: "string list"
  LangMap :: "(string \<times> string) list"

definition baseLangMap :: "(string \<times> string) list" where
  "baseLangMap =
     [(''.md'', ''markdown''), (''.sh'', ''shell''), (''.json'', ''json''),
      (''.yml'', ''yaml''), (''.yaml'', ''yaml''), (''.toml'', ''toml''),
      (''.txt'', ''text''), (''.gitignore'', ''text''), (''.proto'', ''protobuf'')]"

definition filenameLangMap :: "(string \<times> string) list" where
  "filenameLangMap =
     [(''Dockerfile'', ''dockerfile''), (''Makefile'', ''makefile''),
      (''go.mod'', ''go-mod''), (''go.sum'', ''text''), (''LICENSE'', ''text''),
      (''README'', ''markdown'')]"

definition cfg_generic :: ProjectConfig where
  "cfg_generic =
     \<lparr>IgnoreDirs = [''.git''],
      IgnoreExts = [''.DS_Store'', ''.log'', ''.lock''],
      LangMap = []\<rparr>"

definition cfg_android :: ProjectConfig where
  "cfg_android =
     \<lparr>IgnoreDirs = [''.git'', ''.idea'', ''build'', ''.gradle'', ''gradle''],
      IgnoreExts = [''.DS_Store'', ''.iml'', ''.jar'', ''.keystore'', ''.jks'', ''.apk'',
                    ''.aab'', ''.so'', ''.png'', ''.jpg'', ''.jpeg'', ''.gif'', ''.webp''],
      LangMap = [(''.java'', ''java''), (''.kt'', ''kotlin''), (''.kts'', ''kotlin''),
                 (''.xml'', ''xml''), (''.gradle'', ''groovy''), (''.pro'', ''text'')]\<rparr>"

definition cfg_go :: ProjectConfig where
  "cfg_go =
     \<lparr>IgnoreDirs = [''.git'', ''vendor'', ''build''],
      IgnoreExts = [''.DS_Store'', ''.exe'', ''.so'', ''.a''],
      LangMap = [(''.go'', ''go'')]\<rparr>"

definition cfg_rust :: ProjectConfig where
  "cfg_rust =
     \<lparr>IgnoreDirs = [''.git'', ''target''],
      IgnoreExts = [''.DS_Store'', ''.rlib'', ''.so'', ''.a'', ''.exe''],
      LangMap = [(''.rs'', ''rust'')]\<rparr>"

definition cfg_ios :: ProjectConfig where
  "cfg_ios =
     \<lparr>IgnoreDirs = [''.git'', ''.idea'', ''Pods'', ''build'', ''DerivedData'', ''.swiftpm'',
                    ''Carthage''],
      IgnoreExts = [''.DS_Store'', ''.mobileprovision'', ''.app'', ''.ipa'', ''.car'',
                    ''.xcassets'', ''.storyboardc'', ''.nib'', ''.png'', ''.jpg'', ''.jpeg''],
      LangMap = [(''.swift'', ''swift''), (''.m'', ''objectivec''), (''.h'', ''objectivec''),
                 (''.storyboard'', ''xml''), (''.xib'', ''xml''), (''.plist'', ''xml'')]\<rparr>"

definition projectConfigs :: "(string \<times> ProjectConfig) list" where
  "projectConfigs =
     [(''generic'', cfg_generic), (''android'', cfg_android), (''go'', cfg_go),
      (''rust'', cfg_rust), (''ios'', cfg_ios)]"

subsection \<open>Helper functions\<close>

text \<open>\<^verbatim>\<open>stringSet\<close> is \<^verbatim>\<open>map[string]struct{}\<close>: a map to the one-element type.\<close>

type_synonym stringSet = "string \<rightharpoonup> unit"

definition newStringSet :: "string list \<Rightarrow> stringSet" where
  "newStringSet items = fold (\<lambda>item s. s(item \<mapsto> ())) items Map.empty"

definition Contains :: "stringSet \<Rightarrow> string \<Rightarrow> bool" where
  "Contains s item = (case s item of Some _ \<Rightarrow> True | None \<Rightarrow> False)"

text \<open>
  \<^verbatim>\<open>mergeMaps\<close>: the outer loop runs over the argument maps in order, the inner
  loop over the pairs of one map in the order of its enumeration; each pair is assigned
  into the result.
\<close>

definition mergeMaps :: "(string \<times> string) list list \<Rightarrow> (string \<rightharpoonup> string)" where
  "mergeMaps maps =
     fold (\<lambda>m result. fold (\<lambda>(k, v) r. r(k \<mapsto> v)) m result) maps Map.empty"

subsection \<open>Paths (the parts of \<^verbatim>\<open>path/filepath\<close> and \<^verbatim>\<open>os\<close> the program calls)\<close>

text \<open>
  \<^verbatim>\<open>filepath.Ext\<close> scans the name from its end, stops at a path separator and
  returns the suffix that starts at the last dot, or the empty string.
\<close>

fun ext_scan :: "string \<Rightarrow> string \<Rightarrow> string" where
  "ext_scan [] acc = []"
| "ext_scan (c # cs) acc =
     (if c = CHR ''/'' then []
      else if c = CHR ''.'' then c # acc
      else ext_scan cs (c # acc))"

definition Ext :: "string \<Rightarrow> string" where
  "Ext path = ext_scan (rev path) []"

text \<open>
  \<^verbatim>\<open>filepath.Join dir name\<close>, for a directory path in the form
  \<^verbatim>\<open>filepath.Clean\<close> leaves it in (\<^verbatim>\<open>.\<close>, \<^verbatim>\<open>/\<close>, or a path without a
  trailing separator) and the name of a directory entry.
\<close>

definition Join :: "string \<Rightarrow> string \<Rightarrow> string" where
  "Join dir name =
     (if dir = ''.'' then name
      else if dir = ''/'' then ''/'' @ name
      else dir @ ''/'' @ name)"

text \<open>
  \<^verbatim>\<open>filepath.Rel base targ\<close> for a target that the walk reached from
  \<open>base\<close>; \<open>None\<close> is the error it returns when the target cannot be made
  relative to the base.
\<close>

definition Rel :: "string \<Rightarrow> string \<Rightarrow> string option" where
  "Rel base targ =
     (if targ = base then Some ''.''
      else if base = ''.'' then Some targ
      else if base = ''/'' then (if take 1 targ = ''/'' then Some (drop 1 targ) else None)
      else if take (length base + 1) targ = base @ ''/''
        then Some (drop (length base + 1) targ)
      else None)"

text \<open>
  The name \<^verbatim>\<open>os.Lstat\<close> reports for a path: trailing separators are removed
  (never the first character), then everything up to the last separator.
\<close>

fun strip_slashes_rev :: "string \<Rightarrow> string" where
  "strip_slashes_rev [] = []"
| "strip_slashes_rev [c] = [c]"
| "strip_slashes_rev (c # d # cs) =
     (if c = CHR ''/'' then strip_slashes_rev (d # cs) else c # d # cs)"

definition basename :: "string \<Rightarrow> string" where
  "basename name =
     (case strip_slashes_rev (rev name) of
        [] \<Rightarrow> []
      | c # cs \<Rightarrow> rev (c # takeWhile (\<lambda>x. x \<noteq> CHR ''/'') cs))"

subsection \<open>The file system as the program sees it\<close>

text \<open>
  What the operating system answers for one file: whether \<^verbatim>\<open>os.Open\<close> fails,
  whether the first \<^verbatim>\<open>Read\<close> fails with an error other than end of file, the
  bytes of the file, and whether \<^verbatim>\<open>os.ReadFile\<close> fails. An error is its
  message.
\<close>

record file_io =
  open_err :: "string option"
  read_err :: "string option"
  content :: string
  readfile_err :: "string option"

text \<open>
  A directory entry: a file (anything that is not a directory) or a directory with the
  error of \<^verbatim>\<open>os.ReadDir\<close>, if any, and its entries in the order
  \<^verbatim>\<open>ReadDir\<close> returns them.
\<close>

datatype node =
    File string file_io
  | Dir string "string option" "node list"

fun Name :: "node \<Rightarrow> string" where
  "Name (File n io) = n"
| "Name (Dir n e kids) = n"

fun IsDir :: "node \<Rightarrow> bool" where
  "IsDir (File n io) = False"
| "IsDir (Dir n e kids) = True"

fun rename :: "string \<Rightarrow> node \<Rightarrow> node" where
  "rename n (File _ io) = File n io"
| "rename n (Dir _ e kids) = Dir n e kids"

subsection \<open>Project type detection\<close>

definition landmarkFiles :: "(string \<times> string) list" where
  "landmarkFiles =
     [(''go.mod'', ''go''), (''Cargo.toml'', ''rust''), (''build.gradle'', ''android''),
      (''Package.swift'', ''ios''), (''Podfile'', ''ios'')]"

text \<open>
  \<^verbatim>\<open>detectProjectType\<close>. \<open>order\<close> is the enumeration of
  \<^verbatim>\<open>landmarkFiles\<close> that \<^verbatim>\<open>range\<close> uses in this run, \<open>stat_ok p\<close>
  says that \<^verbatim>\<open>os.Stat p\<close> returns no error, and \<open>glob_xcodeproj\<close> that the
  glob \<^verbatim>\<open>*.xcodeproj\<close> has a match in the directory. The result is the project
  type and the line printed.
\<close>

fun first_landmark :: "(string \<Rightarrow> bool) \<Rightarrow> string \<Rightarrow> (string \<times> string) list \<Rightarrow> string option" where
  "first_landmark stat_ok srcDir [] = None"
| "first_landmark stat_ok srcDir ((landmark, projectType) # rest) =
     (if stat_ok (Join srcDir landmark) then Some projectType
      else first_landmark stat_ok srcDir rest)"

definition detectProjectType ::
  "(string \<times> string) list \<Rightarrow> (string \<Rightarrow> bool) \<Rightarrow> bool \<Rightarrow> string \<Rightarrow> string \<times> string" where
  "detectProjectType order stat_ok glob_xcodeproj srcDir =
     (case first_landmark stat_ok srcDir order of
        Some projectType \<Rightarrow> (projectType, ''Auto-detected project type: '' @ projectType)
      | None \<Rightarrow>
          if glob_xcodeproj then (''ios'', ''Auto-detected project type: ios'')
          else (''generic'',
                ''Could not auto-detect project type, using 'generic' defaults.''))"

subsection \<open>The binary detector\<close>

text \<open>
  \<^verbatim>\<open>isBinaryFile\<close>: open the file, read once into a buffer of 1024 bytes, and
  look for a zero byte among the bytes read. On a regular file the read returns the
  first 1024 bytes, or all of them when the file is shorter.
\<close>

definition isBinaryFile :: "file_io \<Rightarrow> string + bool" where
  "isBinaryFile f =
     (case open_err f of
        Some e \<Rightarrow> Inl e
      | None \<Rightarrow>
          (case read_err f of
             Some e \<Rightarrow> Inl e
           | None \<Rightarrow>
               (let readBytes = take 1024 (content f)
                in Inr (CHR 0x00 \<in> set readBytes))))"

section \<open>The walk\<close>

subsection \<open>State and errors\<close>

text \<open>
  The errors a run meets: a failure to enumerate (\<^verbatim>\<open>Lstat\<close> of the root,
  \<^verbatim>\<open>ReadDir\<close> of a directory) and a failure of the output writer. What the
  callback hands back to \<^verbatim>\<open>filepath.WalkDir\<close> is \<^verbatim>\<open>nil\<close> (\<open>None\<close>),
  \<^verbatim>\<open>filepath.SkipDir\<close>, or such an error; \<open>NilEntry\<close> is the panic of a
  method call on a nil \<^verbatim>\<open>fs.DirEntry\<close>.
\<close>

datatype go_error = EnumError string | SinkError string

datatype walk_err = SkipDir | Failure go_error | NilEntry

text \<open>
  What a run does, in order: \<open>Visit\<close> is a call of the callback with no error,
  \<open>Probe\<close> a call of \<^verbatim>\<open>isBinaryFile\<close>, \<open>ReadFile\<close> a call of
  \<^verbatim>\<open>os.ReadFile\<close>, \<open>Stdout\<close> and \<open>LogMsg\<close> a line printed with
  \<^verbatim>\<open>fmt\<close> and \<^verbatim>\<open>log\<close>, and \<open>Emit rel lang bytes\<close> the block of one
  file (relative path, language tag, content) handed to the writer.
\<close>

datatype event =
    Visit string
  | Probe string
  | ReadFile string
  | Stdout string
  | LogMsg string
  | Emit string string string

text \<open>
  The state the callback closes over: the map \<^verbatim>\<open>skippedFiles\<close> from a reason to
  the paths skipped for it, the buffered writer, and the events so far. The writer is
  any state \<open>'w\<close>; its write operation is a parameter of the walk and returns the
  error message or the new writer.
\<close>

record 'w state =
  skippedFiles :: "(string \<times> string list) list"
  writer :: 'w
  trace :: "event list"

text \<open>\<^verbatim>\<open>skippedFiles[reason] = append(skippedFiles[reason], path)\<close>\<close>

definition skip :: "string \<Rightarrow> string \<Rightarrow> 'w state \<Rightarrow> 'w state" where
  "skip reason path s =
     s\<lparr>skippedFiles :=
         AList.update reason
           ((case map_of (skippedFiles s) reason of None \<Rightarrow> [] | Some ps \<Rightarrow> ps) @ [path])
           (skippedFiles s)\<rparr>"

definition emit :: "event \<Rightarrow> 'w state \<Rightarrow> 'w state" where
  "emit ev s = s\<lparr>trace := trace s @ [ev]\<rparr>"

text \<open>The run's resolved configuration (step 2 of \<^verbatim>\<open>main\<close>) and its source directory.\<close>

record config =
  ignoreDirs :: stringSet
  ignoreExts :: stringSet
  langMap :: "string \<rightharpoonup> string"
  srcDir :: string

subsection \<open>Language tag\<close>

text \<open>Lines 258 to 266: by extension, then by full file name, then plain text.\<close>

definition resolveLang :: "(string \<rightharpoonup> string) \<Rightarrow> string \<Rightarrow> string \<Rightarrow> string" where
  "resolveLang lm ext name =
     (case lm ext of
        Some lang \<Rightarrow> lang
      | None \<Rightarrow>
          (case map_of filenameLangMap name of
             Some lang \<Rightarrow> lang
           | None \<Rightarrow> ''text''))"

definition fence :: string where
  "fence = [CHR 0x60, CHR 0x60, CHR 0x60]"

definition nl :: string where
  "nl = [CHR 0x0A]"

subsection \<open>The callback\<close>

text \<open>
  The three writes of one block (lines 274 to 283); the first error is returned and
  the later writes do not happen.
\<close>

definition write_block ::
  "('w \<Rightarrow> string \<Rightarrow> string + 'w) \<Rightarrow> string \<Rightarrow> string \<Rightarrow> string \<Rightarrow> 'w \<Rightarrow> string + 'w" where
  "write_block wr relativePath lang bytes w =
     (case wr w (''File: /'' @ relativePath @ nl @ fence @ lang @ nl) of
        Inl e \<Rightarrow> Inl e
      | Inr w1 \<Rightarrow>
          (case wr w1 bytes of
             Inl e \<Rightarrow> Inl e
           | Inr w2 \<Rightarrow> wr w2 (nl @ fence @ nl @ nl)))"

text \<open>The callback on a file that is not ignored by extension or name (lines 237 to 285).\<close>

definition bundle_file ::
  "config \<Rightarrow> ('w \<Rightarrow> string \<Rightarrow> string + 'w) \<Rightarrow> string \<Rightarrow> string \<Rightarrow> file_io \<Rightarrow> 'w state
     \<Rightarrow> walk_err option \<times> 'w state" where
  "bundle_file cfg wr path name f s =
     (case isBinaryFile f of
        Inl e \<Rightarrow>
          (None,
           emit (LogMsg (''Could not check file type for '' @ path @ '': '' @ e))
             (skip ''File Read Error'' path (emit (Probe path) s)))
      | Inr isBinary \<Rightarrow>
          if isBinary then (None, skip ''Detected Binary Content'' path (emit (Probe path) s))
          else
            (let s1 = emit (ReadFile path)
                        (emit (Stdout (''  + Bundling file: '' @ path)) (emit (Probe path) s))
             in case readfile_err f of
                  Some e \<Rightarrow>
                    (None,
                     emit (LogMsg (''Could not read file '' @ path @ '': '' @ e))
                       (skip ''File Read Error'' path s1))
                | None \<Rightarrow>
                    (let lang = resolveLang (langMap cfg) (Ext name) name;
                         relativePath =
                           (case Rel (srcDir cfg) path of Some r \<Rightarrow> r | None \<Rightarrow> path);
                         s2 = emit (Emit relativePath lang (content f)) s1
                     in case write_block wr relativePath lang (content f) (writer s2) of
                          Inl e \<Rightarrow> (Some (Failure (SinkError e)), s2)
                        | Inr w \<Rightarrow> (None, s2\<lparr>writer := w\<rparr>))))"

text \<open>
  The function passed to \<^verbatim>\<open>filepath.WalkDir\<close> (lines 216 to 286): \<open>d\<close> is the
  entry (nil when \<^verbatim>\<open>Lstat\<close> of the root failed) and \<open>err\<close> the error
  \<^verbatim>\<open>WalkDir\<close> reports for it.
\<close>

definition callback ::
  "config \<Rightarrow> ('w \<Rightarrow> string \<Rightarrow> string + 'w) \<Rightarrow> string \<Rightarrow> node option \<Rightarrow> string option
     \<Rightarrow> 'w state \<Rightarrow> walk_err option \<times> 'w state" where
  "callback cfg wr path d err s =
     (case err of
        Some e \<Rightarrow> (Some (Failure (EnumError e)), s)
      | None \<Rightarrow>
          (case d of
             None \<Rightarrow> (Some NilEntry, s)
           | Some (Dir name e kids) \<Rightarrow>
               if Contains (ignoreDirs cfg) name
               then (Some SkipDir, skip ''Ignored Directory'' path (emit (Visit path) s))
               else (None, emit (Visit path) s)
           | Some (File name f) \<Rightarrow>
               if Contains (ignoreExts cfg) (Ext name) \<or> Contains (ignoreExts cfg) name
               then (None, skip ''Ignored Extension/File'' path (emit (Visit path) s))
               else bundle_file cfg wr path name f (emit (Visit path) s)))"

subsection \<open>\<^verbatim>\<open>filepath.WalkDir\<close> of the Go standard library\<close>

text \<open>
  \<^verbatim>\<open>walkDir\<close> calls the function on the entry; on an error, or on an entry that
  is not a directory, it returns (a \<^verbatim>\<open>SkipDir\<close> from a directory is no error).
  Otherwise it reads the directory, reports a failure of that to the function, and
  walks the entries in order; \<^verbatim>\<open>SkipDir\<close> from an entry ends the loop.
\<close>

definition unskip :: "node \<Rightarrow> walk_err option \<Rightarrow> walk_err option" where
  "unskip d r = (if r = Some SkipDir \<and> IsDir d then None else r)"

fun walkDir ::
  "config \<Rightarrow> ('w \<Rightarrow> string \<Rightarrow> string + 'w) \<Rightarrow> string \<Rightarrow> node \<Rightarrow> 'w state
     \<Rightarrow> walk_err option \<times> 'w state"
and walkEntries ::
  "config \<Rightarrow> ('w \<Rightarrow> string \<Rightarrow> string + 'w) \<Rightarrow> string \<Rightarrow> node list \<Rightarrow> 'w state
     \<Rightarrow> walk_err option \<times> 'w state" where
  "walkDir cfg wr path (File name f) s =
     callback cfg wr path (Some (File name f)) None s"
| "walkDir cfg wr path (Dir name rderr dirs) s =
     (case callback cfg wr path (Some (Dir name rderr dirs)) None s of
        (Some e, s1) \<Rightarrow> (unskip (Dir name rderr dirs) (Some e), s1)
      | (None, s1) \<Rightarrow>
          (case rderr of
             None \<Rightarrow> walkEntries cfg wr path dirs s1
           | Some e \<Rightarrow>
               (case callback cfg wr path (Some (Dir name rderr dirs)) (Some e) s1 of
                  (Some e2, s2) \<Rightarrow> (unskip (Dir name rderr dirs) (Some e2), s2)
                | (None, s2) \<Rightarrow> walkEntries cfg wr path dirs s2)))"
| "walkEntries cfg wr path [] s = (None, s)"
| "walkEntries cfg wr path (d1 # rest) s =
     (case walkDir cfg wr (Join path (Name d1)) d1 s of
        (None, s1) \<Rightarrow> walkEntries cfg wr path rest s1
      | (Some SkipDir, s1) \<Rightarrow> (None, s1)
      | (Some e, s1) \<Rightarrow> (Some e, s1))"

text \<open>
  \<^verbatim>\<open>WalkDir root fn\<close>: \<open>lstat\<close> is the answer of \<^verbatim>\<open>os.Lstat root\<close>,
  the error or the root's entry, whose name is the base name of \<open>root\<close>.
\<close>

definition WalkDir ::
  "config \<Rightarrow> ('w \<Rightarrow> string \<Rightarrow> string + 'w) \<Rightarrow> string \<Rightarrow> string + node \<Rightarrow> 'w state
     \<Rightarrow> walk_err option \<times> 'w state" where
  "WalkDir cfg wr root lstat s =
     (case (case lstat of
              Inl e \<Rightarrow> callback cfg wr root None (Some e) s
            | Inr d \<Rightarrow> walkDir cfg wr root (rename (basename root) d) s) of
        (Some SkipDir, s1) \<Rightarrow> (None, s1)
      | (r, s1) \<Rightarrow> (r, s1))"

section \<open>Main execution\<close>

text \<open>
  The command line: \<^verbatim>\<open>-src\<close>, \<^verbatim>\<open>-output\<close>, \<^verbatim>\<open>-type\<close> and
  \<^verbatim>\<open>-report-skipped\<close>.
\<close>

record flags =
  src :: string
  outputFile :: string
  projectType :: string
  reportSkipped :: bool

text \<open>
  What a run finds outside the program: the enumeration \<^verbatim>\<open>range\<close> uses for
  \<^verbatim>\<open>landmarkFiles\<close> and the one it uses for \<^verbatim>\<open>skippedFiles\<close> in the
  report, the answers of \<^verbatim>\<open>os.Stat\<close> and of the glob, whether
  \<^verbatim>\<open>os.Create\<close> of the output file fails, the fresh writer with its write
  operation, and the answer of \<^verbatim>\<open>os.Lstat\<close> for the source directory with the
  tree below it.
\<close>

record 'w env =
  range_landmarks :: "(string \<times> string) list"
  range_skipped :: "(string \<times> string list) list \<Rightarrow> (string \<times> string list) list"
  stat_ok :: "string \<Rightarrow> bool"
  glob_xcodeproj :: bool
  create_err :: "string option"
  new_writer :: 'w
  sink_write :: "'w \<Rightarrow> string \<Rightarrow> string + 'w"
  lstat_root :: "string + node"

text \<open>The three ways \<^verbatim>\<open>main\<close> ends in \<^verbatim>\<open>log.Fatalf\<close>.\<close>

datatype fatal =
    InvalidProjectType string
  | CreateFailed string
  | WalkFailed walk_err

text \<open>Step 2, lines 188 to 191: the project type the run uses, and what is printed.\<close>

definition finalProjectType :: "flags \<Rightarrow> 'w env \<Rightarrow> string \<times> event list" where
  "finalProjectType fl ev =
     (if projectType fl = ''auto''
      then (case detectProjectType (range_landmarks ev) (stat_ok ev) (glob_xcodeproj ev)
                   (src fl) of
              (t, line) \<Rightarrow> (t, [Stdout line]))
      else (projectType fl, []))"

text \<open>Lines 198 to 200: the sets and the language map the walk uses.\<close>

definition loadConfig :: "ProjectConfig \<Rightarrow> string \<Rightarrow> config" where
  "loadConfig c dir =
     \<lparr>ignoreDirs = newStringSet (IgnoreDirs c),
      ignoreExts = newStringSet (IgnoreExts c),
      langMap = mergeMaps [baseLangMap, LangMap c],
      srcDir = dir\<rparr>"

text \<open>Step 5: the report of the skipped files, when asked for, and the last line.\<close>

definition report :: "(string \<times> string list) list \<Rightarrow> event list" where
  "report enum =
     [Stdout (nl @ ''--- Skipped Files Report ---'')] @
     (if length enum = 0 then [Stdout ''No files were skipped.'']
      else concat (map (\<lambda>(reason, paths).
             Stdout (nl @ ''Reason: '' @ reason) # map (\<lambda>p. Stdout (''  - '' @ p)) paths)
             enum)) @
     [Stdout ''--------------------------'']"

definition success_line :: "string \<Rightarrow> string" where
  "success_line out =
     nl @ [CHR 0xE2, CHR 0x9C, CHR 0x85] @ '' Successfully created project bundle at ''
       @ [CHR 0x27] @ out @ [CHR 0x27]"

text \<open>
  \<^verbatim>\<open>main\<close>: \<open>Inl\<close> is a run ended by \<^verbatim>\<open>log.Fatalf\<close>, \<open>Inr\<close> the state
  of a run that reached its last line. The deferred flush and close change nothing
  the program looks at again.
\<close>

definition main :: "flags \<Rightarrow> 'w env \<Rightarrow> fatal + 'w state" where
  "main fl ev =
     (case finalProjectType fl ev of
        (ptype, printed) \<Rightarrow>
          (case map_of projectConfigs ptype of
             None \<Rightarrow> Inl (InvalidProjectType ptype)
           | Some c \<Rightarrow>
               (case create_err ev of
                  Some e \<Rightarrow> Inl (CreateFailed e)
                | None \<Rightarrow>
                    (let s0 = \<lparr>skippedFiles = [], writer = new_writer ev,
                               trace = printed @
                                 [Stdout (''Starting to bundle project from '' @ [CHR 0x27]
                                    @ src fl @ [CHR 0x27] @ '' into '' @ [CHR 0x27]
                                    @ outputFile fl @ [CHR 0x27] @ '' (type: '' @ ptype
                                    @ '')...'')]\<rparr>
                     in case WalkDir (loadConfig c (src fl)) (sink_write ev) (src fl)
                               (lstat_root ev) s0 of
                          (Some e, s1) \<Rightarrow> Inl (WalkFailed e)
                        | (None, s1) \<Rightarrow>
                            Inr (s1\<lparr>trace := trace s1 @
                                   (if reportSkipped fl
                                    then report (range_skipped ev (skippedFiles s1))
                                    else []) @
                                   [Stdout (success_line (outputFile fl))]\<rparr>)))))"

text \<open>The blocks a run handed to the writer, in order.\<close>

fun records :: "event list \<Rightarrow> (string \<times> string \<times> string) list" where
  "records [] = []"
| "records (Emit rel lang bytes # evs) = (rel, lang, bytes) # records evs"
| "records (_ # evs) = records evs"

text \<open>A writer for examples: it keeps what was written and fails beyond a capacity.\<close>

definition bounded_write :: "nat \<Rightarrow> string \<Rightarrow> string \<Rightarrow> string + string" where
  "bounded_write cap w bytes =
     (if length w + length bytes \<le> cap then Inr (w @ bytes) else Inl ''no space left on device'')"

section \<open>Definitions used to state the properties\<close>

text \<open>
  The tree the walk sees when every directory whose name is in \<open>ignoreDirs\<close> is
  emptied.
\<close>

fun prune :: "config \<Rightarrow> node \<Rightarrow> node" where
  "prune cfg (File n f) = File n f"
| "prune cfg (Dir n e kids) =
     (if Contains (ignoreDirs cfg) n then Dir n None [] else Dir n e (map (prune cfg) kids))"



text \<open>
  Two runs of the same walk with different writers and states \<open>agree\<close> when, unless
  one of them stopped on a writer error, both return the same result and hand the same
  blocks to their writers.
\<close>

definition sink_failed :: "walk_err option \<Rightarrow> bool" where
  "sink_failed r = (case r of Some (Failure (SinkError m)) \<Rightarrow> True | _ \<Rightarrow> False)"

definition agree :: "walk_err option \<times> 'a state \<Rightarrow> 'a state \<Rightarrow> walk_err option \<times> 'b state \<Rightarrow> 'b state \<Rightarrow> bool" where
  "agree x s1 y s2 =
     (sink_failed (fst x) \<or> sink_failed (fst y) \<or>
      (fst x = fst y \<and>
       (\<exists>evs. records (trace (snd x)) = records (trace s1) @ evs \<and>
              records (trace (snd y)) = records (trace s2) @ evs)))"

subsection \<open>Example inputs\<close>

text \<open>A readable file with the given bytes.\<close>

definition text_file :: "string \<Rightarrow> file_io" where
  "text_file bytes = \<lparr>open_err = None, read_err = None, content = bytes, readfile_err = None\<rparr>"

text \<open>
  The directory \<^verbatim>\<open>{a.go, vendor/b.go, .git/config}\<close>, an environment with it in
  which nothing fails but a writer of the given capacity, and the command line
  \<^verbatim>\<open>-type=go\<close>.
\<close>

definition scenario_tree :: node where
  "scenario_tree =
     Dir ''proj'' None
       [Dir ''.git'' None [File ''config'' (text_file ''[core]'')],
        File ''a.go'' (text_file ''package a''),
        Dir ''vendor'' None [File ''b.go'' (text_file ''package b'')]]"

definition scenario_env :: "nat \<Rightarrow> string env" where
  "scenario_env cap =
     \<lparr>range_landmarks = landmarkFiles, range_skipped = (\<lambda>m. m), stat_ok = (\<lambda>p. False),
      glob_xcodeproj = False, create_err = None, new_writer = [],
      sink_write = bounded_write cap, lstat_root = Inr scenario_tree\<rparr>"

definition scenario_flags :: flags where
  "scenario_flags =
     \<lparr>src = ''.'', outputFile = ''bundle.md'', projectType = ''go'', reportSkipped = False\<rparr>"

text \<open>A directory with a file that cannot be opened and one that cannot be read in full.\<close>

definition failing_tree :: node where
  "failing_tree =
     Dir ''proj'' None
       [File ''locked.txt'' ((text_file ''x'')\<lparr>open_err := Some ''permission denied''\<rparr>),
        File ''short.txt'' ((text_file ''y'')\<lparr>readfile_err := Some ''input/output error''\<rparr>),
        File ''z.txt'' (text_file ''z'')]"

definition failing_env :: "string env" where
  "failing_env = (scenario_env 1000)\<lparr>lstat_root := Inr failing_tree\<rparr>"

definition empty_state :: "string state" where
  "empty_state = \<lparr>skippedFiles = [], writer = [], trace = []\<rparr>"

section \<open>Auxiliary lemmas\<close>

lemma records_append [simp]: "records (xs @ ys) = records xs @ records ys"
  by (induction xs rule: records.induct) auto

lemma Contains_newStringSet: "Contains (newStringSet xs) x = (x \<in> set xs)"
proof -
  have "\<And>s. fold (\<lambda>item s. s(item \<mapsto> ())) xs s x = (if x \<in> set xs then Some () else s x)"
    by (induction xs) auto
  then show ?thesis by (simp add: Contains_def newStringSet_def)
qed

lemma fold_assign: "fold (\<lambda>(k, v) r. r(k \<mapsto> v)) m r = r ++ map_of (rev m)"
  by (induction m arbitrary: r) (auto simp: map_add_def fun_eq_iff split: option.splits)

lemma map_of_rev_distinct: "distinct (map fst xs) \<Longrightarrow> map_of (rev xs) = map_of xs"
  by (rule map_of_inject_set [THEN iffD2]) (simp_all add: rev_map [symmetric])

lemma mergeMaps_two: "distinct (map fst ov) \<Longrightarrow> distinct (map fst base) \<Longrightarrow>
  mergeMaps [base, ov] k = (case map_of ov k of Some v \<Rightarrow> Some v | None \<Rightarrow> map_of base k)"
  by (simp add: mergeMaps_def fold_assign map_add_def map_of_rev_distinct split: option.splits)

lemma first_landmark_in: "first_landmark st dir order = Some t \<Longrightarrow> t \<in> snd ` set order"
  by (induction order) (auto split: if_splits)

lemma detect_ok: "set order \<subseteq> set landmarkFiles \<Longrightarrow>
   \<exists>c. map_of projectConfigs (fst (detectProjectType order st g dir)) = Some c"
  apply (auto simp: detectProjectType_def split: option.splits dest!: first_landmark_in)
   apply (auto simp: projectConfigs_def landmarkFiles_def)
  done

lemma map_of_skip_same:
  "map_of (skippedFiles (skip reason path s)) reason =
     Some ((case map_of (skippedFiles s) reason of None \<Rightarrow> [] | Some ps \<Rightarrow> ps) @ [path])"
  by (simp add: skip_def update_conv')

lemma map_of_skip_other:
  "r \<noteq> reason \<Longrightarrow> map_of (skippedFiles (skip reason path s)) r = map_of (skippedFiles s) r"
  by (simp add: skip_def update_conv')

lemma skip_fields [simp]: "trace (skip reason path s) = trace s" "writer (skip reason path s) = writer s"
  by (simp_all add: skip_def)

lemma emit_fields [simp]: "trace (emit ev s) = trace s @ [ev]" "writer (emit ev s) = writer s"
  "skippedFiles (emit ev s) = skippedFiles s"
  by (simp_all add: emit_def)

lemma Name_prune [simp]: "Name (prune cfg d) = Name d"
  by (cases d) auto

lemma callback_Dir_cases:
  "callback cfg wr path (Some (Dir n e kids)) None s =
     (if Contains (ignoreDirs cfg) n
      then (Some SkipDir, skip ''Ignored Directory'' path (emit (Visit path) s))
      else (None, emit (Visit path) s))"
  by (simp add: callback_def)

lemma callback_err: "callback cfg wr path d (Some e) s = (Some (Failure (EnumError e)), s)"
  by (simp add: callback_def)

lemma walk_prune:
  "walkDir cfg wr path (prune cfg d) s = walkDir cfg wr path d s"
  "walkEntries cfg wr path (map (prune cfg) ds) s = walkEntries cfg wr path ds s"
proof (induction cfg wr path d s and cfg wr path ds s rule: walkDir_walkEntries.induct)
  case (1 cfg wr path name f s)
  then show ?case by simp
next
  case (2 cfg wr path name rderr dirs s)
  then show ?case
    by (cases rderr) (auto simp: callback_Dir_cases callback_err unskip_def)
next
  case (3 cfg wr path s)
  then show ?case by simp
next
  case (4 cfg wr path d1 rest s)
  then show ?case
    by (auto split: prod.splits option.splits walk_err.splits)
qed





lemma sink_failed_simps [simp]:
  "sink_failed None = False" "sink_failed (Some SkipDir) = False" "sink_failed (Some NilEntry) = False"
  "sink_failed (Some (Failure (EnumError m))) = False" "sink_failed (Some (Failure (SinkError m))) = True"
  by (simp_all add: sink_failed_def)

lemma callback_agree:
  "agree (callback cfg wr1 path d err s1) s1 (callback cfg wr2 path d err s2) s2"
  by (auto simp: agree_def callback_def bundle_file_def Let_def
      split: sum.splits option.splits node.splits)

lemma agree_trans:
  assumes "agree (r, t1) s1 (r', t2) s2" and "\<not> sink_failed r" and "\<not> sink_failed r'"
    and "agree x t1 y t2"
  shows "agree x s1 y s2"
  using assms by (auto simp: agree_def)

lemma agree_same:
  assumes "agree (r, t1) s1 (r', t2) s2" and "\<not> sink_failed r" and "\<not> sink_failed r'"
  shows "r = r'"
  using assms by (auto simp: agree_def)

lemma agree_result:
  assumes "agree (r, t1) s1 (r', t2) s2" and "sink_failed q = sink_failed r" and "sink_failed q' = sink_failed r'"
    and "r = r' \<Longrightarrow> q = q'"
  shows "agree (q, t1) s1 (q', t2) s2"
  using assms by (auto simp: agree_def)

lemma walk_agree:
  "agree (walkDir cfg wr1 path d s1) s1 (walkDir cfg wr2 path d s2) s2"
  "agree (walkEntries cfg wr1 path ds s1) s1 (walkEntries cfg wr2 path ds s2) s2"
proof (induction cfg wr1 path d s1 and cfg wr1 path ds s1 arbitrary: s2 and s2 rule: walkDir_walkEntries.induct)
  case (1 cfg wr path name f s)
  then show ?case by (simp add: callback_agree)
next
  case (2 cfg wr path name rderr dirs s)
  show ?case
  proof (cases "Contains (ignoreDirs cfg) name")
    case True
    then show ?thesis by (simp add: callback_Dir_cases unskip_def agree_def)
  next
    case False
    note nign = this
    show ?thesis
    proof (cases rderr)
      case None
      have "agree (walkEntries cfg wr path dirs (emit (Visit path) s)) (emit (Visit path) s)
              (walkEntries cfg wr2 path dirs (emit (Visit path) s2)) (emit (Visit path) s2)"
        using 2(1)[of None "emit (Visit path) s"] nign None by (simp add: callback_Dir_cases)
      then show ?thesis using nign None
        by (simp add: callback_Dir_cases agree_def)
    next
      case (Some e)
      then show ?thesis using nign
        by (simp add: callback_Dir_cases callback_err unskip_def agree_def)
    qed
  qed
next
  case (3 cfg wr path s)
  then show ?case by (simp add: agree_def)
next
  case (4 cfg wr path d1 rest s)
  obtain r t1 where W1: "walkDir cfg wr (Join path (Name d1)) d1 s = (r, t1)" by force
  obtain r' t2 where W2: "walkDir cfg wr2 (Join path (Name d1)) d1 s2 = (r', t2)" by force
  have A: "agree (r, t1) s (r', t2) s2" using 4(1)[of s2] W1 W2 by simp
  show ?case
  proof (cases "sink_failed r \<or> sink_failed r'")
    case True
    then show ?thesis using W1 W2
      by (auto simp: agree_def sink_failed_def split: option.splits walk_err.splits go_error.splits)
  next
    case False
    then have eq: "r = r'" using A by (auto dest: agree_same)
    show ?thesis
    proof (cases r)
      case None
      have "agree (walkEntries cfg wr path rest t1) t1 (walkEntries cfg wr2 path rest t2) t2"
        using 4(2)[OF W1[symmetric, unfolded None], of t2] None W1 by simp
      then have "agree (walkEntries cfg wr path rest t1) s (walkEntries cfg wr2 path rest t2) s2"
        using agree_trans[OF A] False by blast
      then show ?thesis using W1 W2 eq None by simp
    next
      case (Some e)
      then show ?thesis using W1 W2 eq A False
        by (cases e) (auto simp: agree_def)
    qed
  qed
qed

lemma records_map_Stdout [simp]: "records (map (\<lambda>p. Stdout (g p)) ps) = []"
  by (induction ps) auto

lemma records_report [simp]: "records (report enum) = []"
proof -
  have "records (concat (map (\<lambda>(reason, paths). Stdout (h reason) # map (\<lambda>p. Stdout (g p)) paths) enum)) = []"
    for h g
    by (induction enum) auto
  then show ?thesis by (simp add: report_def)
qed

lemma WalkDir_agree:
  "agree (WalkDir cfg wr1 root l s1) s1 (WalkDir cfg wr2 root l s2) s2"
proof (cases l)
  case (Inl e)
  then show ?thesis by (simp add: WalkDir_def callback_err agree_def)
next
  case (Inr d)
  obtain r t1 where W1: "walkDir cfg wr1 root (rename (basename root) d) s1 = (r, t1)" by force
  obtain r' t2 where W2: "walkDir cfg wr2 root (rename (basename root) d) s2 = (r', t2)" by force
  have A: "agree (r, t1) s1 (r', t2) s2"
    using walk_agree(1)[of cfg wr1 root "rename (basename root) d" s1 wr2 s2] W1 W2 by simp
  have "agree (if r = Some SkipDir then None else r, t1) s1 (if r' = Some SkipDir then None else r', t2) s2"
    by (rule agree_result[OF A]) (auto simp: sink_failed_def)
  moreover have "WalkDir cfg wr1 root l s1 = (if r = Some SkipDir then None else r, t1)"
    using Inr W1 by (auto simp: WalkDir_def split: option.splits walk_err.splits)
  moreover have "WalkDir cfg wr2 root l s2 = (if r' = Some SkipDir then None else r', t2)"
    using Inr W2 by (auto simp: WalkDir_def split: option.splits walk_err.splits)
  ultimately show ?thesis by simp
qed

lemma records_finalProjectType: "finalProjectType fl ev = (a, b) \<Longrightarrow> records b = []"
  by (auto simp: finalProjectType_def split: if_splits prod.splits)

text \<open>The equations that evaluate a run on a concrete input.\<close>

lemmas eval_defs =
  main_def finalProjectType_def detectProjectType_def loadConfig_def WalkDir_def
  callback_def bundle_file_def write_block_def isBinaryFile_def resolveLang_def
  skip_def emit_def unskip_def Contains_newStringSet Contains_def newStringSet_def mergeMaps_def
  projectConfigs_def cfg_go_def cfg_generic_def baseLangMap_def filenameLangMap_def
  landmarkFiles_def Join_def Rel_def Ext_def basename_def bounded_write_def
  scenario_tree_def scenario_env_def scenario_flags_def text_file_def
  failing_tree_def failing_env_def
  report_def success_line_def nl_def fence_def Let_def

section \<open>The binary detector\<close>

text \<open>
  C1. The binary detector looks at no more than the first 1024 bytes of a file that
  opens and reads without error: the file is binary exactly when one of the bytes read
  is zero, so the answer for a file is the answer for its first 1024 bytes; a file with
  no zero byte among its first 1024 bytes is text even when a zero byte follows later
  (for instance at byte 2000), and the empty file is text.
\<close>

theorem isBinaryFile_first_1024:
  assumes "open_err f = None" and "read_err f = None"
  shows "isBinaryFile f =
           Inr (\<exists>i. i < 1024 \<and> i < length (content f) \<and> content f ! i = CHR 0x00)
       \<and> isBinaryFile (f\<lparr>content := take 1024 (content f)\<rparr>) = isBinaryFile f
       \<and> (1024 \<le> length pre \<and> CHR 0x00 \<notin> set pre \<longrightarrow>
            isBinaryFile (f\<lparr>content := pre @ CHR 0x00 # post\<rparr>) = Inr False)
       \<and> isBinaryFile (f\<lparr>content := replicate 2000 (CHR ''a'') @ CHR 0x00 # post\<rparr>) = Inr False
       \<and> isBinaryFile (f\<lparr>content := []\<rparr>) = Inr False"
proof -
  have "(CHR 0x00 \<in> set (take 1024 (content f))) =
        (\<exists>i. i < 1024 \<and> i < length (content f) \<and> content f ! i = CHR 0x00)"
    by (auto simp: in_set_conv_nth)
  then have "isBinaryFile f =
           Inr (\<exists>i. i < 1024 \<and> i < length (content f) \<and> content f ! i = CHR 0x00)"
    using assms by (simp add: isBinaryFile_def)
  moreover have "isBinaryFile (f\<lparr>content := take 1024 (content f)\<rparr>) = isBinaryFile f"
    using assms by (simp add: isBinaryFile_def)
  moreover have "1024 \<le> length pre \<and> CHR 0x00 \<notin> set pre \<longrightarrow>
            isBinaryFile (f\<lparr>content := pre @ CHR 0x00 # post\<rparr>) = Inr False"
    using assms by (auto simp: isBinaryFile_def dest: in_set_takeD)
  moreover have "isBinaryFile (f\<lparr>content := replicate 2000 (CHR ''a'') @ CHR 0x00 # post\<rparr>)
      = Inr False"
    using assms by (simp add: isBinaryFile_def)
  moreover have "isBinaryFile (f\<lparr>content := []\<rparr>) = Inr False"
    using assms by (simp add: isBinaryFile_def)
  ultimately show ?thesis by blast
qed

theorem isBinaryFile_first_1024_witness:
  "isBinaryFile (text_file (''ab'' @ [CHR 0x00] @ ''cd'')) = Inr True
   \<and> isBinaryFile (text_file (replicate 2000 (CHR ''a'') @ [CHR 0x00])) = Inr False
   \<and> isBinaryFile (text_file []) = Inr False"
  using isBinaryFile_first_1024 [of "text_file (''ab'' @ [CHR 0x00] @ ''cd'')"
      "replicate 1024 (CHR ''a'')" "[]"]
  by (simp add: text_file_def isBinaryFile_def)

section \<open>Pruning of ignored directories\<close>

text \<open>
  C2. A directory whose bare name is in \<open>ignoreDirs\<close> is pruned. The walk of such a
  directory does not depend on what is beneath it: it is one call of the callback
  (no entry beneath is visited, nothing is handed to the writer), its own path is
  appended to the ledger under the reason for ignored directories, no other reason of
  the ledger changes, and the walk goes on with the next entry. For a whole tree: the
  walk of any tree is the walk of the tree in which every ignored directory is empty.
\<close>

theorem ignored_directory_pruned:
  assumes "Contains (ignoreDirs cfg) name"
  shows "walkDir cfg wr path (Dir name rderr kids) s =
           (None, skip ''Ignored Directory'' path (emit (Visit path) s))
       \<and> walkDir cfg wr path (Dir name rderr kids) s = walkDir cfg wr path (Dir name None []) s
       \<and> trace (snd (walkDir cfg wr path (Dir name rderr kids) s)) = trace s @ [Visit path]
       \<and> writer (snd (walkDir cfg wr path (Dir name rderr kids) s)) = writer s
       \<and> map_of (skippedFiles (snd (walkDir cfg wr path (Dir name rderr kids) s)))
             ''Ignored Directory'' =
           Some ((case map_of (skippedFiles s) ''Ignored Directory'' of
                    None \<Rightarrow> [] | Some ps \<Rightarrow> ps) @ [path])
       \<and> (reason \<noteq> ''Ignored Directory'' \<longrightarrow>
            map_of (skippedFiles (snd (walkDir cfg wr path (Dir name rderr kids) s))) reason =
            map_of (skippedFiles s) reason)
       \<and> walkEntries cfg wr dir (Dir name rderr kids # rest) s =
           walkEntries cfg wr dir rest
             (skip ''Ignored Directory'' (Join dir name) (emit (Visit (Join dir name)) s))
       \<and> walkDir cfg wr root (prune cfg t) s = walkDir cfg wr root t s"
proof -
  have W: "walkDir cfg wr p (Dir name e ks) s =
             (None, skip ''Ignored Directory'' p (emit (Visit p) s))" for p e ks
    using assms by (simp add: callback_Dir_cases unskip_def)
  have "walkEntries cfg wr dir (Dir name rderr kids # rest) s =
           walkEntries cfg wr dir rest
             (skip ''Ignored Directory'' (Join dir name) (emit (Visit (Join dir name)) s))"
    using W [of "Join dir name" rderr kids] by simp
  then show ?thesis
    using W [of path rderr kids] W [of path None "[]"]
    by (simp add: map_of_skip_same map_of_skip_other walk_prune(1))
qed

theorem ignored_directory_pruned_witness:
  "walkDir (loadConfig cfg_go ''.'') (bounded_write 1000) ''vendor''
      (Dir ''vendor'' None [File ''b.go'' (text_file ''package b'')]) empty_state =
     (None, \<lparr>skippedFiles = [(''Ignored Directory'', [''vendor''])], writer = [],
             trace = [Visit ''vendor'']\<rparr>)
   \<and> (\<exists>s. main scenario_flags (scenario_env 1000) = Inr s
         \<and> records (trace s) = [(''a.go'', ''go'', ''package a'')]
         \<and> skippedFiles s = [(''Ignored Directory'', [''.git'', ''vendor''])])"
  using ignored_directory_pruned [of "loadConfig cfg_go ''.''" "''vendor''"
      "bounded_write 1000" "''vendor''" None "[File ''b.go'' (text_file ''package b'')]"
      empty_state "''File Read Error''" "''.''" "[]" "''.''" scenario_tree]
  by (simp add: eval_defs empty_state_def)

section \<open>Files ignored by extension or name\<close>

text \<open>
  C3. A file whose extension or whose full name is in \<open>ignoreExts\<close> is skipped at
  once: the callback returns no error, appends the path to the ledger under the reason
  for ignored extensions and files, and does nothing else. The binary detector is not
  called and the file is not read (the events of the call are the visit alone, and the
  result is the same whatever opening or reading the file would have answered).
\<close>

theorem ignored_ext_skipped_without_read:
  assumes "Contains (ignoreExts cfg) (Ext name) \<or> Contains (ignoreExts cfg) name"
  shows "walkDir cfg wr path (File name f) s =
           (None, skip ''Ignored Extension/File'' path (emit (Visit path) s))
       \<and> trace (snd (walkDir cfg wr path (File name f) s)) = trace s @ [Visit path]
       \<and> writer (snd (walkDir cfg wr path (File name f) s)) = writer s
       \<and> walkDir cfg wr path (File name g) s = walkDir cfg wr path (File name f) s"
  using assms by (auto simp: callback_def)

theorem ignored_ext_skipped_without_read_witness:
  "walkDir (loadConfig cfg_generic ''.'') (bounded_write 0) ''logs/app.log''
      (File ''app.log'' ((text_file [])\<lparr>open_err := Some ''permission denied''\<rparr>)) empty_state =
     (None, \<lparr>skippedFiles = [(''Ignored Extension/File'', [''logs/app.log''])], writer = [],
             trace = [Visit ''logs/app.log'']\<rparr>)
   \<and> walkDir (loadConfig cfg_generic ''.'') (bounded_write 0) ''.DS_Store''
      (File ''.DS_Store'' (text_file [CHR 0x00])) empty_state =
     (None, \<lparr>skippedFiles = [(''Ignored Extension/File'', [''.DS_Store''])], writer = [],
             trace = [Visit ''.DS_Store'']\<rparr>)"
  using ignored_ext_skipped_without_read [of "loadConfig cfg_generic ''.''" "''app.log''"
      "bounded_write 0" "''logs/app.log''"
      "(text_file [])\<lparr>open_err := Some ''permission denied''\<rparr>" empty_state "text_file ''x''"]
  by (simp add: eval_defs empty_state_def)

section \<open>Language tags\<close>

text \<open>
  C4. The language tag of an accepted file is always defined: it is the value of the
  merged language map at the file's extension when the extension is a key of that map,
  otherwise the value of the table of well-known file names at the exact file name when
  the name is a key of that table, otherwise \<open>text\<close>. An extension that is a key wins
  whatever the file name is. The block handed to the writer for an accepted file carries
  this tag. Keys are compared as they are (the witness shows that case matters).
\<close>

theorem language_tag_precedence:
  assumes "\<not> Contains (ignoreExts cfg) (Ext name)" and "\<not> Contains (ignoreExts cfg) name"
    and "isBinaryFile f = Inr False" and "readfile_err f = None"
  shows "resolveLang lm ext nm =
           (if ext \<in> dom lm then the (lm ext)
            else if nm \<in> dom (map_of filenameLangMap) then the (map_of filenameLangMap nm)
            else ''text'')
       \<and> (lm ext = Some v \<longrightarrow> resolveLang lm ext nm = v)
       \<and> records (trace (snd (walkDir cfg wr path (File name f) s))) =
           records (trace s) @
             [(case Rel (srcDir cfg) path of Some r \<Rightarrow> r | None \<Rightarrow> path,
               resolveLang (langMap cfg) (Ext name) name, content f)]"
proof -
  have "resolveLang lm ext nm =
           (if ext \<in> dom lm then the (lm ext)
            else if nm \<in> dom (map_of filenameLangMap) then the (map_of filenameLangMap nm)
            else ''text'')"
    by (auto simp: resolveLang_def dom_def split: option.splits)
  moreover have "lm ext = Some v \<longrightarrow> resolveLang lm ext nm = v"
    by (simp add: resolveLang_def)
  moreover have "records (trace (snd (walkDir cfg wr path (File name f) s))) =
           records (trace s) @
             [(case Rel (srcDir cfg) path of Some r \<Rightarrow> r | None \<Rightarrow> path,
               resolveLang (langMap cfg) (Ext name) name, content f)]"
    using assms
    by (auto simp: callback_def bundle_file_def Let_def split: sum.splits option.splits)
  ultimately show ?thesis by blast
qed

theorem language_tag_precedence_witness:
  "resolveLang (langMap (loadConfig cfg_go ''.'')) (Ext ''main.go'') ''main.go'' = ''go''
   \<and> resolveLang (langMap (loadConfig cfg_go ''.'')) (Ext ''README.md'') ''README.md'' = ''markdown''
   \<and> resolveLang (langMap (loadConfig cfg_go ''.'')) (Ext ''README.MD'') ''README.MD'' = ''text''
   \<and> resolveLang (langMap (loadConfig cfg_go ''.'')) (Ext ''Dockerfile'') ''Dockerfile'' = ''dockerfile''
   \<and> resolveLang (langMap (loadConfig cfg_go ''.'')) (Ext ''dockerfile'') ''dockerfile'' = ''text''
   \<and> resolveLang (langMap (loadConfig cfg_go ''.'')) (Ext ''go.mod'') ''go.mod'' = ''go-mod''
   \<and> resolveLang [''.mod'' \<mapsto> ''module''] (Ext ''go.mod'') ''go.mod'' = ''module''
   \<and> resolveLang (langMap (loadConfig cfg_go ''.'')) (Ext ''notes.xyz'') ''notes.xyz'' = ''text''
   \<and> records (trace (snd (walkDir (loadConfig cfg_go ''/p'') (bounded_write 1000) ''/p/cmd/a.go''
        (File ''a.go'' (text_file ''package a'')) empty_state))) =
       [(''cmd/a.go'', ''go'', ''package a'')]"
  using language_tag_precedence [of "loadConfig cfg_go ''/p''" "''a.go''"
      "text_file ''package a''" "[''.mod'' \<mapsto> ''module'']" "''.mod''" "''go.mod''" "''module''"
      "bounded_write 1000" "''/p/cmd/a.go''" empty_state]
  by (simp add: eval_defs empty_state_def)

section \<open>What ends a run\<close>




section \<open>Read errors\<close>

text \<open>
  C6. When the check for binary content fails, or the check succeeds with the answer
  text and reading the whole file fails, the callback returns no error: the path is
  appended to the ledger under the reason for read errors, the last event is the log
  line with the path and the error, nothing is handed to the writer, and the walk of the
  directory goes on with the next entry.
\<close>

theorem read_error_skips_file:
  assumes "\<not> Contains (ignoreExts cfg) (Ext name)" and "\<not> Contains (ignoreExts cfg) name"
    and "isBinaryFile f = Inl e \<or> (isBinaryFile f = Inr False \<and> readfile_err f = Some e)"
  shows "fst (walkDir cfg wr path (File name f) s) = None
    \<and> map_of (skippedFiles (snd (walkDir cfg wr path (File name f) s))) ''File Read Error'' =
        Some ((case map_of (skippedFiles s) ''File Read Error'' of None \<Rightarrow> [] | Some ps \<Rightarrow> ps)
              @ [path])
    \<and> last (trace (snd (walkDir cfg wr path (File name f) s))) \<in>
        {LogMsg (''Could not check file type for '' @ path @ '': '' @ e),
         LogMsg (''Could not read file '' @ path @ '': '' @ e)}
    \<and> records (trace (snd (walkDir cfg wr path (File name f) s))) = records (trace s)
    \<and> writer (snd (walkDir cfg wr path (File name f) s)) = writer s
    \<and> walkEntries cfg wr dir (File name f # rest) s =
        walkEntries cfg wr dir rest (snd (walkDir cfg wr (Join dir name) (File name f) s))"
  using assms
  by (auto simp: callback_def bundle_file_def Let_def map_of_skip_same split: sum.splits option.splits prod.splits)

theorem read_error_skips_file_witness:
  "walkDir (loadConfig cfg_go ''.'') (bounded_write 1000) ''locked.txt''
      (File ''locked.txt'' ((text_file ''x'')\<lparr>open_err := Some ''permission denied''\<rparr>))
      empty_state =
     (None, \<lparr>skippedFiles = [(''File Read Error'', [''locked.txt''])], writer = [],
             trace = [Visit ''locked.txt'', Probe ''locked.txt'',
                      LogMsg ''Could not check file type for locked.txt: permission denied'']\<rparr>)
   \<and> walkDir (loadConfig cfg_go ''.'') (bounded_write 1000) ''short.txt''
      (File ''short.txt'' ((text_file ''y'')\<lparr>readfile_err := Some ''input/output error''\<rparr>))
      empty_state =
     (None, \<lparr>skippedFiles = [(''File Read Error'', [''short.txt''])], writer = [],
             trace = [Visit ''short.txt'', Probe ''short.txt'',
                      Stdout ''  + Bundling file: short.txt'', ReadFile ''short.txt'',
                      LogMsg ''Could not read file short.txt: input/output error'']\<rparr>)"
  using read_error_skips_file [of "loadConfig cfg_go ''.''" "''locked.txt''"
      "(text_file ''x'')\<lparr>open_err := Some ''permission denied''\<rparr>" "''permission denied''"
      "bounded_write 1000" "''locked.txt''" empty_state "''.''" "[]"]
  by (simp add: eval_defs empty_state_def)

section \<open>Determinism of the emitted records\<close>

text \<open>
  C7. Two runs that both reach their end, on the same source directory (the same path
  and the same tree with the same answers of the file system) and with the same project
  type, hand the same blocks to their writers: the same relative paths, language tags
  and contents in the same order. Nothing else a run is given has an influence: not the
  output file, the writer, the report flag, or the order in which Go enumerates its maps.
\<close>

theorem records_deterministic:
  assumes "main fl1 ev1 = Inr s1" and "main fl2 ev2 = Inr s2"
    and "src fl1 = src fl2" and "lstat_root ev1 = lstat_root ev2"
    and "fst (finalProjectType fl1 ev1) = fst (finalProjectType fl2 ev2)"
  shows "records (trace s1) = records (trace s2)"
proof -
  obtain pt pr1 where F1: "finalProjectType fl1 ev1 = (pt, pr1)" by force
  obtain pr2 where F2: "finalProjectType fl2 ev2 = (pt, pr2)" using assms(5) F1 by (cases "finalProjectType fl2 ev2") auto
  have P1: "records pr1 = []" using F1 by (auto simp: finalProjectType_def split: if_splits prod.splits)
  have P2: "records pr2 = []" using F2 by (auto simp: finalProjectType_def split: if_splits prod.splits)
  obtain c where C: "map_of projectConfigs pt = Some c"
    using assms(1) F1 by (auto simp: main_def split: option.splits)
  let ?cfg = "loadConfig c (src fl1)"
  obtain i1 t1 where R1: "WalkDir ?cfg (sink_write ev1) (src fl1) (lstat_root ev1) i1 = (None, t1)"
    and I1: "records (trace i1) = []" and T1: "records (trace s1) = records (trace t1)"
    using assms(1) F1 C P1
    by (auto simp: main_def Let_def split: option.splits prod.splits)
  obtain i2 t2 where R2: "WalkDir ?cfg (sink_write ev2) (src fl1) (lstat_root ev1) i2 = (None, t2)"
    and I2: "records (trace i2) = []" and T2: "records (trace s2) = records (trace t2)"
    using assms(2,3,4) F2 C P2
    by (auto simp: main_def Let_def split: option.splits prod.splits)
  have "agree (None, t1) i1 (None, t2) i2"
    using WalkDir_agree[of ?cfg "sink_write ev1" "src fl1" "lstat_root ev1" i1 "sink_write ev2" i2] R1 R2
    by simp
  then show ?thesis using I1 I2 T1 T2 by (auto simp: agree_def)
qed

theorem records_deterministic_witness:
  "\<exists>s1 s2. main scenario_flags (scenario_env 1000) = Inr s1
     \<and> main (scenario_flags\<lparr>outputFile := ''out.md'', reportSkipped := True\<rparr>)
          ((scenario_env 5000)\<lparr>range_landmarks := rev landmarkFiles, range_skipped := rev\<rparr>)
        = Inr s2
     \<and> records (trace s1) = records (trace s2)
     \<and> records (trace s1) = [(''a.go'', ''go'', ''package a'')]"
proof -
  obtain s1 where a: "main scenario_flags (scenario_env 1000) = Inr s1"
    and r: "records (trace s1) = [(''a.go'', ''go'', ''package a'')]"
    by (simp add: eval_defs)
  obtain s2 where b: "main (scenario_flags\<lparr>outputFile := ''out.md'', reportSkipped := True\<rparr>)
          ((scenario_env 5000)\<lparr>range_landmarks := rev landmarkFiles, range_skipped := rev\<rparr>)
        = Inr s2"
    by (simp add: eval_defs)
  have "records (trace s1) = records (trace s2)"
    by (rule records_deterministic [OF a b])
       (simp_all add: scenario_flags_def scenario_env_def finalProjectType_def)
  then show ?thesis using a b r by blast
qed

section \<open>The resolved configuration\<close>

text \<open>
  C8. The language map of a run is the merge of the base map and the preset's map: a key
  of the preset's map has the preset's value, any other key has the value of the base
  map (if any), whatever the order in which the two maps are enumerated; every preset of
  the table has distinct keys. The sets of ignored directories and of ignored extensions
  contain exactly the entries of the preset's lists.
\<close>

theorem merged_language_map:
  assumes "distinct (map fst (LangMap c))"
  shows "langMap (loadConfig c dir) k =
           (case map_of (LangMap c) k of Some v \<Rightarrow> Some v | None \<Rightarrow> map_of baseLangMap k)
       \<and> Contains (ignoreDirs (loadConfig c dir)) x = (x \<in> set (IgnoreDirs c))
       \<and> Contains (ignoreExts (loadConfig c dir)) x = (x \<in> set (IgnoreExts c))
       \<and> (distinct (map fst base) \<and> distinct (map fst ov) \<longrightarrow>
            mergeMaps [base, ov] k =
              (case map_of ov k of Some v \<Rightarrow> Some v | None \<Rightarrow> map_of base k))
       \<and> (distinct (map fst base) \<and> set base = set baseLangMap \<and>
          distinct (map fst ov) \<and> set ov = set (LangMap c) \<longrightarrow>
            mergeMaps [base, ov] = langMap (loadConfig c dir))
       \<and> (map_of projectConfigs t = Some preset \<longrightarrow> distinct (map fst (LangMap preset)))"
proof -
  have db: "distinct (map fst baseLangMap)" by (simp add: baseLangMap_def)
  have m: "langMap (loadConfig c dir) k =
           (case map_of (LangMap c) k of Some v \<Rightarrow> Some v | None \<Rightarrow> map_of baseLangMap k)" for k
    using assms db by (simp add: loadConfig_def mergeMaps_two)
  have p: "distinct (map fst base) \<and> set base = set baseLangMap \<and>
          distinct (map fst ov) \<and> set ov = set (LangMap c) \<longrightarrow>
            mergeMaps [base, ov] = langMap (loadConfig c dir)"
  proof
    assume h: "distinct (map fst base) \<and> set base = set baseLangMap \<and>
          distinct (map fst ov) \<and> set ov = set (LangMap c)"
    then have e: "map_of base = map_of baseLangMap" "map_of ov = map_of (LangMap c)"
      using db assms by (simp_all add: map_of_inject_set)
    have "mergeMaps [base, ov] k = mergeMaps [baseLangMap, LangMap c] k" for k
    proof -
      have "mergeMaps [base, ov] k =
              (case map_of ov k of Some v \<Rightarrow> Some v | None \<Rightarrow> map_of base k)"
        using h by (simp add: mergeMaps_two)
      also have "\<dots> = (case map_of (LangMap c) k of Some v \<Rightarrow> Some v
                        | None \<Rightarrow> map_of baseLangMap k)"
        by (simp only: e)
      also have "\<dots> = mergeMaps [baseLangMap, LangMap c] k"
        using db assms by (simp add: mergeMaps_two)
      finally show ?thesis .
    qed
    then show "mergeMaps [base, ov] = langMap (loadConfig c dir)"
      by (simp add: fun_eq_iff loadConfig_def)
  qed
  have "\<forall>(n, preset) \<in> set projectConfigs. distinct (map fst (LangMap preset))"
    by (simp add: projectConfigs_def cfg_generic_def cfg_android_def cfg_go_def cfg_rust_def
        cfg_ios_def)
  then have q: "map_of projectConfigs t = Some preset \<longrightarrow> distinct (map fst (LangMap preset))"
    by (auto dest: map_of_SomeD)
  have e: "distinct (map fst base) \<and> distinct (map fst ov) \<longrightarrow>
            mergeMaps [base, ov] k =
              (case map_of ov k of Some v \<Rightarrow> Some v | None \<Rightarrow> map_of base k)"
    by (simp add: mergeMaps_two)
  have i: "Contains (ignoreDirs (loadConfig c dir)) x = (x \<in> set (IgnoreDirs c))"
    "Contains (ignoreExts (loadConfig c dir)) x = (x \<in> set (IgnoreExts c))"
    by (simp_all add: loadConfig_def Contains_newStringSet)
  show ?thesis
    using m [of k] p q e i by (intro conjI)
qed

theorem merged_language_map_witness:
  "langMap (loadConfig cfg_android ''.'') ''.kt'' = Some ''kotlin''
   \<and> langMap (loadConfig cfg_android ''.'') ''.md'' = Some ''markdown''
   \<and> langMap (loadConfig cfg_android ''.'') ''.rs'' = None
   \<and> mergeMaps [[(''.md'', ''markdown''), (''.txt'', ''text'')], [(''.md'', ''mdx'')]] ''.md''
       = Some ''mdx''
   \<and> Contains (ignoreDirs (loadConfig cfg_android ''.'')) ''build''
   \<and> \<not> Contains (ignoreDirs (loadConfig cfg_android ''.'')) ''vendor''
   \<and> Contains (ignoreExts (loadConfig cfg_android ''.'')) ''.apk''"
proof -
  have d: "distinct (map fst (LangMap cfg_android))"
    by (simp add: cfg_android_def)
  have o: "distinct (map fst [(''.md'', ''markdown''), (''.txt'', ''text'')])
           \<and> distinct (map fst [(''.md'', ''mdx'')])"
    by simp
  note T = merged_language_map [OF d, of "''.''" _ _
      "[(''.md'', ''markdown''), (''.txt'', ''text'')]" "[(''.md'', ''mdx'')]"]
  have "langMap (loadConfig cfg_android ''.'') ''.kt'' = Some ''kotlin''"
    using T [of "''.kt''"] by (simp add: cfg_android_def)
  moreover have "langMap (loadConfig cfg_android ''.'') ''.md'' = Some ''markdown''"
    using T [of "''.md''"] by (simp add: cfg_android_def baseLangMap_def)
  moreover have "langMap (loadConfig cfg_android ''.'') ''.rs'' = None"
    using T [of "''.rs''"] by (simp add: cfg_android_def baseLangMap_def)
  moreover have "mergeMaps [[(''.md'', ''markdown''), (''.txt'', ''text'')], [(''.md'', ''mdx'')]]
      ''.md'' = Some ''mdx''"
    using T [of "''.md''"] o by simp
  moreover have "Contains (ignoreDirs (loadConfig cfg_android ''.'')) ''build''"
    using T [of _ "''build''"] by (simp add: cfg_android_def)
  moreover have "\<not> Contains (ignoreDirs (loadConfig cfg_android ''.'')) ''vendor''"
    using T [of _ "''vendor''"] by (simp add: cfg_android_def)
  moreover have "Contains (ignoreExts (loadConfig cfg_android ''.'')) ''.apk''"
    using T [of _ "''.apk''"] by (simp add: cfg_android_def)
  ultimately show ?thesis by (intro conjI)
qed

section \<open>A source directory that is itself ignored\<close>

text \<open>
  C9. When the source directory exists, is a directory, and the base name of its path
  is in the preset's list of ignored directories, the run reaches its end with nothing
  handed to the writer, and the ledger has exactly one entry: the path of the source
  directory under the reason for ignored directories.
\<close>

theorem root_in_ignoreDirs:
  assumes "map_of projectConfigs (fst (finalProjectType fl ev)) = Some c"
    and "create_err ev = None"
    and "lstat_root ev = Inr (Dir n e kids)"
    and "basename (src fl) \<in> set (IgnoreDirs c)"
  shows "\<exists>s. main fl ev = Inr s \<and> skippedFiles s = [(''Ignored Directory'', [src fl])]
           \<and> records (trace s) = [] \<and> writer s = new_writer ev"
  using assms
  by (cases "finalProjectType fl ev")
     (auto simp: main_def Let_def WalkDir_def callback_Dir_cases unskip_def loadConfig_def
        Contains_newStringSet skip_def records_finalProjectType
      split: prod.splits option.splits)

theorem root_in_ignoreDirs_witness:
  "\<exists>s. main (scenario_flags\<lparr>src := ''/work/vendor/''\<rparr>) (scenario_env 1000) = Inr s
     \<and> skippedFiles s = [(''Ignored Directory'', [''/work/vendor/''])]
     \<and> records (trace s) = [] \<and> writer s = []"
  using root_in_ignoreDirs [of "scenario_flags\<lparr>src := ''/work/vendor/''\<rparr>" "scenario_env 1000"
      cfg_go "''proj''" None
      "[Dir ''.git'' None [File ''config'' (text_file ''[core]'')],
        File ''a.go'' (text_file ''package a''),
        Dir ''vendor'' None [File ''b.go'' (text_file ''package b'')]]"]
  by (simp add: eval_defs)

section \<open>Automatic detection of the project type\<close>

text \<open>
  C10. Whatever the order in which the landmark files are enumerated, and whatever the
  file system answers, the type that automatic detection returns has a preset; it is
  \<open>generic\<close> when no landmark exists and the glob has no match. So a run ends with
  the error for an invalid project type exactly when the type given on the command line
  is not \<open>auto\<close> and has no preset.
\<close>

theorem auto_detection_yields_preset:
  assumes "set (range_landmarks ev) \<subseteq> set landmarkFiles"
  shows "(\<exists>c. map_of projectConfigs
               (fst (detectProjectType (range_landmarks ev) (stat_ok ev) (glob_xcodeproj ev) dir))
             = Some c)
       \<and> ((\<forall>p. \<not> stat_ok ev p) \<and> \<not> glob_xcodeproj ev \<longrightarrow>
            fst (detectProjectType (range_landmarks ev) (stat_ok ev) (glob_xcodeproj ev) dir)
              = ''generic'')
       \<and> (main fl ev = Inl (InvalidProjectType t)) =
           (projectType fl \<noteq> ''auto'' \<and> t = projectType fl \<and> map_of projectConfigs t = None)"
proof -
  have d: "\<exists>c. map_of projectConfigs
               (fst (detectProjectType (range_landmarks ev) (stat_ok ev) (glob_xcodeproj ev) dir))
             = Some c" for dir
    using assms by (rule detect_ok)
  have g: "(\<forall>p. \<not> stat_ok ev p) \<and> \<not> glob_xcodeproj ev \<longrightarrow>
            fst (detectProjectType (range_landmarks ev) (stat_ok ev) (glob_xcodeproj ev) dir)
              = ''generic''"
  proof
    assume h: "(\<forall>p. \<not> stat_ok ev p) \<and> \<not> glob_xcodeproj ev"
    then have "first_landmark (stat_ok ev) dir order = None" for order
      by (induction order) auto
    then show "fst (detectProjectType (range_landmarks ev) (stat_ok ev) (glob_xcodeproj ev) dir)
              = ''generic''"
      using h by (simp add: detectProjectType_def)
  qed
  have m: "(main fl ev = Inl (InvalidProjectType t)) =
           (projectType fl \<noteq> ''auto'' \<and> t = projectType fl \<and> map_of projectConfigs t = None)"
  proof (cases "projectType fl = ''auto''")
    case True
    obtain c where "map_of projectConfigs
               (fst (detectProjectType (range_landmarks ev) (stat_ok ev) (glob_xcodeproj ev)
                  (src fl))) = Some c"
      using d [of "src fl"] by blast
    then show ?thesis using True
      by (auto simp: main_def finalProjectType_def Let_def split: prod.splits option.splits)
  next
    case False
    then show ?thesis
      by (auto simp: main_def finalProjectType_def Let_def split: prod.splits option.splits)
  qed
  show ?thesis using d [of dir] g m by blast
qed

theorem auto_detection_yields_preset_witness:
  "(\<exists>s. main (scenario_flags\<lparr>projectType := ''auto''\<rparr>) (scenario_env 1000) = Inr s)
   \<and> fst (detectProjectType (rev landmarkFiles) (\<lambda>p. p = ''Cargo.toml'') False ''.'') = ''rust''
   \<and> main (scenario_flags\<lparr>projectType := ''golang''\<rparr>) (scenario_env 1000) =
       Inl (InvalidProjectType ''golang'')"
  using auto_detection_yields_preset [of "scenario_env 1000" "''.''"
      "scenario_flags\<lparr>projectType := ''golang''\<rparr>" "''golang''"]
  by (simp add: eval_defs)

end
